theory Spec2Isabelle
  imports Main
begin

section \<open>Data model\<close>

text \<open>
  The Go program keeps a history of daily statistics (\<open>HEXJSON\<close>, a slice of
  \<open>HEXJSONEntry\<close>) in the file \<open>data/hexjson.json\<close>. The three metrics of an entry
  are \<open>float64\<close> values that the code only carries around, so their type is the
  parameter \<open>'f\<close>. \<open>CurrentDay\<close> is a Go \<open>int\<close>; the code only compares days, so the
  mathematical integers model it.
\<close>

record 'f HEXJSONEntry =
  CurrentDay :: int
  TshareRateHEX :: 'f
  DailyPayoutHEX :: 'f
  PricePulseX :: 'f

type_synonym 'f HEXJSON = "'f HEXJSONEntry list"

text \<open>Go's \<open>error\<close> values, named after the call that produced them.\<close>

datatype error = OpenFailed | DecodeFailed | CreateFailed | EncodeFailed | HttpFailed

text \<open>
  What \<open>os.Open\<close> followed by \<open>json.Decode\<close> can find at a path: no file
  (\<open>os.IsNotExist\<close>), a file that cannot be opened for another reason, a file whose
  bytes do not decode into the target type, or a file that decodes to a value.
\<close>

datatype 'a file_state = Absent | Unreadable | Malformed | Content 'a

text \<open>
  What \<open>os.Create\<close> followed by \<open>Encoder.Encode\<close> does, decided by the environment:
  both succeed, \<open>os.Create\<close> fails (the file is untouched), or the file is created
  (truncated) and writing the encoding fails.
\<close>

datatype write_outcome = WriteOk | CreateFails | EncodeFails

text \<open>
  The history file on disk. \<open>hexjson_writes\<close> is a ghost counter of the times the
  file was created (truncated) by \<open>saveLocalHEXJSON\<close>; the program never reads it.
\<close>

record 'f history_disk =
  hexjson_file :: "'f HEXJSON file_state"
  hexjson_writes :: nat

section \<open>History store\<close>

definition loadLocalHEXJSON :: "'f history_disk \<Rightarrow> error + 'f HEXJSON" where
  "loadLocalHEXJSON d =
     (case hexjson_file d of
        Absent \<Rightarrow> Inr []
      | Unreadable \<Rightarrow> Inl OpenFailed
      | Malformed \<Rightarrow> Inl DecodeFailed
      | Content data \<Rightarrow> Inr data)"

definition saveLocalHEXJSON ::
  "write_outcome \<Rightarrow> 'f HEXJSON \<Rightarrow> 'f history_disk \<Rightarrow> error option \<times> 'f history_disk" where
  "saveLocalHEXJSON io data d =
     (case io of
        CreateFails \<Rightarrow> (Some CreateFailed, d)
      | EncodeFails \<Rightarrow>
          (Some EncodeFailed,
           d\<lparr>hexjson_file := Malformed, hexjson_writes := Suc (hexjson_writes d)\<rparr>)
      | WriteOk \<Rightarrow>
          (None,
           d\<lparr>hexjson_file := Content data, hexjson_writes := Suc (hexjson_writes d)\<rparr>))"

text \<open>
  The loop of \<open>updateLocalHEXJSON\<close>:
  \<^verbatim>\<open>for _, entry := range remoteData {
      if entry.CurrentDay > localMaxDay { newEntries = append(newEntries, entry) }
      else { break }
  }\<close>
  with the slice \<open>newEntries\<close> as accumulator.
\<close>

fun collectNewEntries :: "int \<Rightarrow> 'f HEXJSON \<Rightarrow> 'f HEXJSON \<Rightarrow> 'f HEXJSON" where
  "collectNewEntries localMaxDay [] newEntries = newEntries"
| "collectNewEntries localMaxDay (entry # rest) newEntries =
     (if CurrentDay entry > localMaxDay
      then collectNewEntries localMaxDay rest (newEntries @ [entry])
      else newEntries)"

text \<open>
  \<open>updateLocalHEXJSON\<close>. The result of \<open>fetchHEXJSON\<close> (one HTTP request) and the
  outcome of a write are inputs from the environment.
\<close>

definition updateLocalHEXJSON ::
  "error + 'f HEXJSON \<Rightarrow> write_outcome \<Rightarrow> 'f history_disk \<Rightarrow> error option \<times> 'f history_disk" where
  "updateLocalHEXJSON fetched io d =
     (case loadLocalHEXJSON d of
        Inl err \<Rightarrow> (Some err, d)
      | Inr localData \<Rightarrow>
          (case fetched of
             Inl err \<Rightarrow> (Some err, d)
           | Inr remoteData \<Rightarrow>
               if length localData = 0 then saveLocalHEXJSON io remoteData d
               else
                 let localMaxDay = CurrentDay (localData ! 0);
                     newEntries = collectNewEntries localMaxDay remoteData []
                 in if length newEntries > 0
                    then saveLocalHEXJSON io (newEntries @ localData) d
                    else (None, d)))"

subsection \<open>The merge as the specification words it\<close>

text \<open>
  The prefix of \<open>remote\<close> whose days strictly exceed \<open>maxLocalDay\<close>, up to the first
  entry that does not exceed it.
\<close>

definition newer_prefix :: "int \<Rightarrow> 'f HEXJSON \<Rightarrow> 'f HEXJSON" where
  "newer_prefix maxLocalDay remote = takeWhile (\<lambda>e. CurrentDay e > maxLocalDay) remote"

definition merge_spec :: "'f HEXJSON \<Rightarrow> 'f HEXJSON \<Rightarrow> 'f HEXJSON" where
  "merge_spec local remote =
     (if local = [] then remote
      else newer_prefix (CurrentDay (hd local)) remote @ local)"

text \<open>
  The history read back after one run of \<open>updateLocalHEXJSON\<close> in which the fetch
  returned \<open>remote\<close> and the disk accepted writes: the merged result as persisted.
\<close>

definition merged_history :: "'f HEXJSON \<Rightarrow> 'f history_disk \<Rightarrow> error + 'f HEXJSON" where
  "merged_history remote d =
     loadLocalHEXJSON (snd (updateLocalHEXJSON (Inr remote) WriteOk d))"

text \<open>
  The invariant of the persisted collection: sorted descending by day, with at most
  one entry per day value.
\<close>

definition descending_by_day :: "'f HEXJSON \<Rightarrow> bool" where
  "descending_by_day xs \<longleftrightarrow>
     sorted_wrt (\<lambda>a b. CurrentDay a \<ge> CurrentDay b) xs \<and> distinct (map CurrentDay xs)"

text \<open>An entry of a given day, for examples.\<close>

definition on_day :: "int \<Rightarrow> nat HEXJSONEntry" where
  "on_day d = \<lparr>CurrentDay = d, TshareRateHEX = 0, DailyPayoutHEX = 0, PricePulseX = 0\<rparr>"

definition disk_with :: "nat HEXJSON \<Rightarrow> nat history_disk" where
  "disk_with xs = \<lparr>hexjson_file = Content xs, hexjson_writes = 0\<rparr>"

definition no_history :: "nat history_disk" where
  "no_history = \<lparr>hexjson_file = Absent, hexjson_writes = 0\<rparr>"

section \<open>Configuration\<close>

record Config =
  LiveDataFrequency :: int

definition defaultLiveDataFrequency :: int where
  "defaultLiveDataFrequency = 15"

text \<open>
  \<open>loadConfig\<close> reads \<open>settings/config.json\<close>. \<open>Config{}\<close>, returned beside an
  error, is the zero value of the struct.
\<close>

definition loadConfig :: "Config file_state \<Rightarrow> Config \<times> error option" where
  "loadConfig f =
     (case f of
        Absent \<Rightarrow> (\<lparr>LiveDataFrequency = defaultLiveDataFrequency\<rparr>, None)
      | Unreadable \<Rightarrow> (\<lparr>LiveDataFrequency = 0\<rparr>, Some OpenFailed)
      | Malformed \<Rightarrow> (\<lparr>LiveDataFrequency = 0\<rparr>, Some DecodeFailed)
      | Content c \<Rightarrow>
          (if LiveDataFrequency c \<le> 0
           then (c\<lparr>LiveDataFrequency := defaultLiveDataFrequency\<rparr>, None)
           else (c, None)))"

definition saveConfig ::
  "write_outcome \<Rightarrow> Config \<Rightarrow> Config file_state \<Rightarrow> error option \<times> Config file_state" where
  "saveConfig io c f =
     (case io of
        CreateFails \<Rightarrow> (Some CreateFailed, f)
      | EncodeFails \<Rightarrow> (Some EncodeFailed, Malformed)
      | WriteOk \<Rightarrow> (None, Content c))"

text \<open>
  \<open>ConfigManager\<close>. A subscriber's channel is \<open>make(chan struct{}, 1)\<close>: all that
  matters of it is whether its one slot holds a signal, so \<open>changeChans\<close> is a list of
  booleans and a channel is named by its index in the list. The locks are not
  modelled: every method runs as one atomic step.
\<close>

record ConfigManager =
  config :: Config
  changeChans :: "bool list"

record 'f LiveData =
  PricePulsechain :: 'f
  TsharePricePulsechain :: 'f
  TshareRateHEXPulsechain :: 'f
  PenaltiesHEXPulsechain :: 'f
  PayoutPerTsharePulsechain :: 'f
  Beat :: int

text \<open>The lines the modelled code writes with \<open>log.Println\<close>.\<close>

datatype 'f log_entry =
    LogSetFrequency int
  | LogSentSignal nat
  | LogChannelFull nat
  | LogNewSubscriber nat
  | LogErrorLoadingConfig error
  | LogErrorSavingConfig error
  | LogStartingFetchTicker int
  | LogErrorFetching error
  | LogUpdatedLiveData 'f
  | LogFetchTickerReset int
  | LogStartingTabTicker int
  | LogTabTickerReset int
  | LogTabTickerStopped
  | LogStartingProfileTicker int
  | LogProfileTickerReset int
  | LogProfileTickerStopped

text \<open>
  The process-wide state: the cached snapshot \<open>latestLiveData\<close>, the global
  \<open>configManager\<close> and the log. \<open>liveFetches\<close> is a ghost counter of the calls of
  \<open>fetchLiveData\<close>.
\<close>

record 'f app =
  latestLiveData :: "'f LiveData"
  configManager :: ConfigManager
  logged :: "'f log_entry list"
  liveFetches :: nat

definition configManager_init :: ConfigManager where
  "configManager_init =
     \<lparr>config = \<lparr>LiveDataFrequency = defaultLiveDataFrequency\<rparr>, changeChans = []\<rparr>"

definition GetLiveDataFrequency :: "'f app \<Rightarrow> int" where
  "GetLiveDataFrequency a = LiveDataFrequency (config (configManager a))"

text \<open>
  The notification loop of \<open>SetLiveDataFrequency\<close>: a non-blocking send on every
  subscriber's channel, dropped (\<open>default\<close>) when the slot is taken.
\<close>

fun notify :: "nat \<Rightarrow> bool list \<Rightarrow> bool list \<times> 'f log_entry list" where
  "notify i [] = ([], [])"
| "notify i (ch # chs) =
     (if ch then (ch # fst (notify (Suc i) chs), LogChannelFull i # snd (notify (Suc i) chs))
      else (True # fst (notify (Suc i) chs), LogSentSignal i # snd (notify (Suc i) chs)))"

definition SetLiveDataFrequency :: "int \<Rightarrow> 'f app \<Rightarrow> 'f app" where
  "SetLiveDataFrequency freq a =
     (let cm = configManager a;
          sent = notify 0 (changeChans cm)
      in a\<lparr>configManager :=
             cm\<lparr>config := (config cm)\<lparr>LiveDataFrequency := freq\<rparr>, changeChans := fst sent\<rparr>,
           logged := logged a @ LogSetFrequency freq # snd sent\<rparr>)"

definition Subscribe :: "'f app \<Rightarrow> nat \<times> 'f app" where
  "Subscribe a =
     (let cm = configManager a;
          ch = length (changeChans cm)
      in (ch,
          a\<lparr>configManager := cm\<lparr>changeChans := changeChans cm @ [False]\<rparr>,
            logged := logged a @ [LogNewSubscriber (Suc ch)]\<rparr>))"

text \<open>
  The start-up sequence of \<open>main\<close> that seeds the \<open>configManager\<close>:
  \<^verbatim>\<open>config, err := loadConfig()
  if err != nil { log.Println(...); config.LiveDataFrequency = defaultLiveDataFrequency }
  configManager.SetLiveDataFrequency(config.LiveDataFrequency)\<close>
\<close>

definition main_loadConfig :: "Config file_state \<Rightarrow> 'f app \<Rightarrow> 'f app" where
  "main_loadConfig f a =
     (case loadConfig f of
        (c, Some err) \<Rightarrow>
          SetLiveDataFrequency
            (LiveDataFrequency (c\<lparr>LiveDataFrequency := defaultLiveDataFrequency\<rparr>))
            (a\<lparr>logged := logged a @ [LogErrorLoadingConfig err]\<rparr>)
      | (c, None) \<Rightarrow> SetLiveDataFrequency (LiveDataFrequency c) a)"

text \<open>
  The handler of the \<open>Save Frequency\<close> button of the settings tab. \<open>parsed\<close> is what
  \<open>strconv.Atoi(frequencyEntry.Text)\<close> returns; the dialog shown is the first
  component of the result.
\<close>

datatype dialog = ErrorNotPositive | ErrorFailedToSave | InformationSet int

definition saveFrequencyButton ::
  "error + int \<Rightarrow> write_outcome \<Rightarrow> Config file_state \<Rightarrow> 'f app \<Rightarrow>
     dialog \<times> Config file_state \<times> 'f app" where
  "saveFrequencyButton parsed io f a =
     (case parsed of
        Inl err \<Rightarrow> (ErrorNotPositive, f, a)
      | Inr freq \<Rightarrow>
          if freq \<le> 0 then (ErrorNotPositive, f, a)
          else
            (case saveConfig io \<lparr>LiveDataFrequency = freq\<rparr> f of
               (Some err, f') \<Rightarrow>
                 (ErrorFailedToSave, f', a\<lparr>logged := logged a @ [LogErrorSavingConfig err]\<rparr>)
             | (None, f') \<Rightarrow> (InformationSet freq, f', SetLiveDataFrequency freq a)))"

text \<open>
  The operations through which the program reaches the \<open>configManager\<close>, and a run
  of any number of them.
\<close>

datatype config_op =
    MainLoadConfig "Config file_state"
  | SaveFrequency "error + int" write_outcome "Config file_state"
  | NewSubscriber

fun config_step :: "'f app \<Rightarrow> config_op \<Rightarrow> 'f app" where
  "config_step a (MainLoadConfig f) = main_loadConfig f a"
| "config_step a (SaveFrequency parsed io f) = snd (snd (saveFrequencyButton parsed io f a))"
| "config_step a NewSubscriber = snd (Subscribe a)"

definition config_run :: "config_op list \<Rightarrow> 'f app \<Rightarrow> 'f app" where
  "config_run ops a = foldl config_step a ops"

section \<open>Polling loops\<close>

text \<open>
  \<open>time.Duration(frequency) * time.Minute\<close> is a product of \<open>int64\<close> values in
  nanoseconds, which wraps around silently.
\<close>

definition wrap64 :: "int \<Rightarrow> int" where
  "wrap64 x = (x + 2 ^ 63) mod 2 ^ 64 - 2 ^ 63"

definition minutes :: "int \<Rightarrow> int" where
  "minutes freq = wrap64 (freq * 60000000000)"

datatype ticker = Ticking int | Stopped

datatype status = Running | Returned | Panicked

text \<open>
  The local variables of a polling goroutine, and whether it still runs. A panic in
  a goroutine ends the whole process.
\<close>

record ticker_loop =
  loop_frequency :: int
  loop_ticker :: ticker
  loop_changeCh :: nat
  loop_status :: status

text \<open>
  \<open>ticker.Reset(d)\<close> inside a loop that has deferred \<open>ticker.Stop()\<close>: the library
  panics when \<open>d \<le> 0\<close>, and the deferred call then stops the ticker.
\<close>

definition ticker_Reset :: "int \<Rightarrow> 'a ticker_loop_scheme \<Rightarrow> 'a ticker_loop_scheme" where
  "ticker_Reset d l =
     (if d \<le> 0 then l\<lparr>loop_ticker := Stopped, loop_status := Panicked\<rparr>
      else l\<lparr>loop_ticker := Ticking d\<rparr>)"

text \<open>Whether a receive from the loop's \<open>changeCh\<close> can proceed, and its effect.\<close>

definition signal_pending :: "'a ticker_loop_scheme \<Rightarrow> 'f app \<Rightarrow> bool" where
  "signal_pending l a \<longleftrightarrow>
     loop_changeCh l < length (changeChans (configManager a)) \<and>
     changeChans (configManager a) ! loop_changeCh l"

definition receive_signal :: "'a ticker_loop_scheme \<Rightarrow> 'f app \<Rightarrow> 'f app" where
  "receive_signal l a =
     a\<lparr>configManager :=
         (configManager a)\<lparr>changeChans :=
            (changeChans (configManager a))[loop_changeCh l := False]\<rparr>\<rparr>"

subsection \<open>The fetching loop of \<open>main\<close>\<close>

text \<open>
  The goroutine started by \<open>main\<close>, up to its \<open>for\<close> loop. \<open>time.NewTicker\<close> panics on
  a non-positive duration, before the deferred \<open>Stop\<close> and the subscription.
\<close>

definition startPoller :: "'f app \<Rightarrow> ticker_loop \<times> 'f app" where
  "startPoller a =
     (let freq = GetLiveDataFrequency a;
          a1 = a\<lparr>logged := logged a @ [LogStartingFetchTicker freq]\<rparr>
      in if minutes freq \<le> 0
         then (\<lparr>loop_frequency = freq, loop_ticker = Stopped, loop_changeCh = 0,
                loop_status = Panicked\<rparr>, a1)
         else (\<lparr>loop_frequency = freq, loop_ticker = Ticking (minutes freq),
                loop_changeCh = fst (Subscribe a1), loop_status = Running\<rparr>,
               snd (Subscribe a1)))"

text \<open>
  One iteration of the loop: the case its \<open>select\<close> takes. A tick carries what
  \<open>fetchLiveData\<close> returns in that iteration. The result is \<open>None\<close> when the case
  cannot be taken (the goroutine has ended, or no signal waits in \<open>changeCh\<close>).
\<close>

datatype 'f poller_case = PollTick "error + 'f LiveData" | PollChange

definition pollerStep ::
  "'f poller_case \<Rightarrow> ticker_loop \<times> 'f app \<Rightarrow> (ticker_loop \<times> 'f app) option" where
  "pollerStep c s =
     (case s of (l, a) \<Rightarrow>
        if loop_status l \<noteq> Running then None
        else
          (case c of
             PollTick fetched \<Rightarrow>
               (let a1 = a\<lparr>liveFetches := Suc (liveFetches a)\<rparr>;
                    a2 = (case fetched of
                            Inl err \<Rightarrow> a1\<lparr>logged := logged a1 @ [LogErrorFetching err]\<rparr>
                          | Inr data \<Rightarrow>
                              a1\<lparr>latestLiveData := data,
                                 logged := logged a1 @
                                   [LogUpdatedLiveData (TsharePricePulsechain data)]\<rparr>);
                    l1 = l\<lparr>loop_frequency := GetLiveDataFrequency a2\<rparr>
                in Some (ticker_Reset (minutes (loop_frequency l1)) l1, a2))
           | PollChange \<Rightarrow>
               if \<not> signal_pending l a then None
               else
                 (let a1 = receive_signal l a;
                      l1 = l\<lparr>loop_frequency := GetLiveDataFrequency a1\<rparr>;
                      a2 = a1\<lparr>logged := logged a1 @ [LogFetchTickerReset (loop_frequency l1)]\<rparr>
                  in Some (ticker_Reset (minutes (loop_frequency l1)) l1, a2))))"

subsection \<open>The display loops of \<open>createProfileTab\<close> and \<open>createLiveDataTab\<close>\<close>

text \<open>
  The goroutines of the two tabs have the same variables and two more things that
  decide what their \<open>select\<close> can take: the cancellation state of their context
  \<open>ctx\<close>, and whether a tick waits in \<open>ticker.C\<close>. Their \<open>select\<close> has three cases,
  and a case can be taken only when it is ready: a tick waits, a signal waits in
  \<open>changeCh\<close>, or \<open>ctx\<close> is cancelled. A loop that is blocked in its \<open>select\<close> is a
  running loop with no case ready; the first case to become ready wakes it.
\<close>

record display_loop = ticker_loop +
  ctx_cancelled :: bool
  tick_waiting :: bool


definition tick_arrives :: "'a display_loop_scheme \<Rightarrow> 'a display_loop_scheme" where
  "tick_arrives l =
     (case loop_ticker l of Ticking d \<Rightarrow> l\<lparr>tick_waiting := True\<rparr> | Stopped \<Rightarrow> l)"









text \<open>A process state for examples: a zero snapshot and the initial \<open>configManager\<close>.\<close>

definition app0 :: "nat app" where
  "app0 =
     \<lparr>latestLiveData =
        \<lparr>PricePulsechain = 0, TsharePricePulsechain = 0, TshareRateHEXPulsechain = 0,
         PenaltiesHEXPulsechain = 0, PayoutPerTsharePulsechain = 0, Beat = 0\<rparr>,
      configManager = configManager_init, logged = [], liveFetches = 0\<rparr>"

text \<open>
  The three polling loops as the program starts them in that state: the fetching loop
  of \<open>main\<close>, then the loops of the profile tab and of the live-data tab. \<open>data1\<close> is a
  snapshot other than the zero one.
\<close>

definition poller0 :: "ticker_loop \<times> nat app" where
  "poller0 = startPoller app0"





section \<open>Properties of the history merge\<close>

lemma collectNewEntries_takeWhile:
  "collectNewEntries m remote acc = acc @ newer_prefix m remote"
  by (induction remote arbitrary: acc) (simp_all add: newer_prefix_def)

lemma load_nonempty_file:
  assumes "loadLocalHEXJSON d = Inr local" and "local \<noteq> []"
  shows "hexjson_file d = Content local"
  using assms by (simp add: loadLocalHEXJSON_def split: file_state.splits)

lemma load_after_save:
  "loadLocalHEXJSON (snd (saveLocalHEXJSON WriteOk data d)) = Inr data"
  by (simp add: saveLocalHEXJSON_def loadLocalHEXJSON_def)

lemma update_nonempty:
  assumes "loadLocalHEXJSON d = Inr local" and "local \<noteq> []"
  shows "updateLocalHEXJSON (Inr remote) io d =
           (if newer_prefix (CurrentDay (hd local)) remote = [] then (None, d)
            else saveLocalHEXJSON io (newer_prefix (CurrentDay (hd local)) remote @ local) d)"
  using assms
  by (simp add: updateLocalHEXJSON_def collectNewEntries_takeWhile hd_conv_nth)

lemma update_empty:
  assumes "loadLocalHEXJSON d = Inr []"
  shows "updateLocalHEXJSON (Inr remote) io d = saveLocalHEXJSON io remote d"
  using assms by (simp add: updateLocalHEXJSON_def)

lemma merged_history_spec:
  assumes "loadLocalHEXJSON d = Inr local"
  shows "merged_history remote d = Inr (merge_spec local remote)"
proof (cases "local = []")
  case True
  with assms show ?thesis
    by (simp add: merged_history_def update_empty load_after_save merge_spec_def)
next
  case False
  show ?thesis
  proof (cases "newer_prefix (CurrentDay (hd local)) remote = []")
    case True
    with False assms show ?thesis
      by (simp add: merged_history_def update_nonempty merge_spec_def)
  next
    case nonempty: False
    with False assms show ?thesis
      by (simp add: merged_history_def update_nonempty load_after_save merge_spec_def)
  qed
qed

lemma descending_by_day_strict:
  "descending_by_day xs \<longleftrightarrow> sorted_wrt (\<lambda>a b. CurrentDay a > CurrentDay b) xs"
  unfolding descending_by_day_def
proof (induction xs)
  case Nil
  show ?case by simp
next
  case (Cons a xs)
  have "(\<forall>x\<in>set xs. CurrentDay x \<le> CurrentDay a) \<and> CurrentDay a \<notin> CurrentDay ` set xs
          \<longleftrightarrow> (\<forall>x\<in>set xs. CurrentDay x < CurrentDay a)"
    by (auto simp: image_iff less_le)
  with Cons show ?case by auto
qed

lemma descending_hd_max:
  assumes "descending_by_day xs" and "x \<in> set xs"
  shows "CurrentDay x \<le> CurrentDay (hd xs)"
  using assms unfolding descending_by_day_strict
  by (cases xs) (auto intro: order_less_imp_le)

lemma newer_prefix_days:
  "x \<in> set (newer_prefix m remote) \<Longrightarrow> CurrentDay x > m"
  unfolding newer_prefix_def by (rule set_takeWhileD [THEN conjunct2])

lemma newer_prefix_descending:
  assumes "descending_by_day remote"
  shows "descending_by_day (newer_prefix m remote)"
proof -
  have "remote = newer_prefix m remote @ dropWhile (\<lambda>e. CurrentDay e > m) remote"
    by (simp add: newer_prefix_def)
  then have "sorted_wrt (\<lambda>a b. CurrentDay a > CurrentDay b)
               (newer_prefix m remote @ dropWhile (\<lambda>e. CurrentDay e > m) remote)"
    using assms by (simp add: descending_by_day_strict)
  then show ?thesis
    by (simp add: descending_by_day_strict sorted_wrt_append)
qed

lemma merge_spec_descending:
  assumes "descending_by_day local" and "descending_by_day remote"
  shows "descending_by_day (merge_spec local remote)"
proof (cases "local = []")
  case True
  with assms show ?thesis by (simp add: merge_spec_def)
next
  case False
  let ?m = "CurrentDay (hd local)"
  have cross: "CurrentDay y < CurrentDay x"
    if "x \<in> set (newer_prefix ?m remote)" and "y \<in> set local" for x y
    using newer_prefix_days [OF that(1)] descending_hd_max [OF assms(1) that(2)] by simp
  have "sorted_wrt (\<lambda>a b. CurrentDay a > CurrentDay b) (newer_prefix ?m remote @ local)"
    using newer_prefix_descending [OF assms(2), of ?m] assms(1) cross
    by (simp add: descending_by_day_strict sorted_wrt_append)
  with False show ?thesis
    by (simp add: merge_spec_def descending_by_day_strict)
qed

text \<open>
  C1. Whatever the two sequences are (day-descending or not), a run of
  \<open>updateLocalHEXJSON\<close> that loads \<open>local\<close>, fetches \<open>remote\<close> and can write returns no
  error and leaves on disk the merge as specified: \<open>remote\<close> unchanged when \<open>local\<close> is
  empty, otherwise the prefix of \<open>remote\<close> whose days strictly exceed the day of
  \<open>local\<close>'s first element, cut at the first entry that does not exceed it, in its
  original order and prepended to \<open>local\<close>; when that prefix is empty the result is
  \<open>local\<close>.
\<close>

theorem updateLocalHEXJSON_merge:
  assumes "loadLocalHEXJSON d = Inr local"
  shows "fst (updateLocalHEXJSON (Inr remote) WriteOk d) = None \<and>
         merged_history remote d = Inr (merge_spec local remote) \<and>
         (local = [] \<longrightarrow> merged_history remote d = Inr remote) \<and>
         (local \<noteq> [] \<longrightarrow>
            merged_history remote d =
              Inr (takeWhile (\<lambda>e. CurrentDay e > CurrentDay (hd local)) remote @ local)) \<and>
         (local \<noteq> [] \<and> takeWhile (\<lambda>e. CurrentDay e > CurrentDay (hd local)) remote = [] \<longrightarrow>
            merged_history remote d = Inr local)"
proof -
  have ret: "fst (updateLocalHEXJSON (Inr remote) WriteOk d) = None"
  proof (cases "local = []")
    case True
    with assms show ?thesis by (simp add: update_empty saveLocalHEXJSON_def)
  next
    case False
    with assms show ?thesis by (simp add: update_nonempty saveLocalHEXJSON_def)
  qed
  have m: "merged_history remote d = Inr (merge_spec local remote)"
    using assms by (rule merged_history_spec)
  show ?thesis
    using ret m by (simp add: merge_spec_def newer_prefix_def)
qed

theorem updateLocalHEXJSON_merge_witness:
  "loadLocalHEXJSON (disk_with (map on_day [100, 99, 98])) = Inr (map on_day [100, 99, 98]) \<and>
   fst (updateLocalHEXJSON (Inr (map on_day [102, 101, 100, 99])) WriteOk
          (disk_with (map on_day [100, 99, 98]))) = None \<and>
   merged_history (map on_day [102, 101, 100, 99]) (disk_with (map on_day [100, 99, 98])) =
     Inr (map on_day [102, 101, 100, 99, 98]) \<and>
   merged_history (map on_day [99, 98]) (disk_with (map on_day [100, 99, 98])) =
     Inr (map on_day [100, 99, 98]) \<and>
   loadLocalHEXJSON no_history = Inr [] \<and>
   merged_history (map on_day [5, 4, 3]) no_history = Inr (map on_day [5, 4, 3])"
proof -
  have h: "loadLocalHEXJSON (disk_with (map on_day [100, 99, 98])) = Inr (map on_day [100, 99, 98])"
    by (simp add: loadLocalHEXJSON_def disk_with_def)
  have b: "loadLocalHEXJSON no_history = Inr []"
    by (simp add: loadLocalHEXJSON_def no_history_def)
  show ?thesis
    using h b updateLocalHEXJSON_merge [OF h, of "map on_day [102, 101, 100, 99]"]
      updateLocalHEXJSON_merge [OF h, of "map on_day [99, 98]"]
      updateLocalHEXJSON_merge [OF b, of "map on_day [5, 4, 3]"]
    by (simp add: on_day_def merge_spec_def newer_prefix_def)
qed

text \<open>
  C2. When \<open>local\<close> and \<open>remote\<close> are both sorted descending by day with at most one
  entry per day value, the merged result that \<open>updateLocalHEXJSON\<close> persists is again
  sorted descending by day with no duplicate day values.
\<close>

theorem merge_keeps_descending_by_day:
  assumes "loadLocalHEXJSON d = Inr local"
    and "descending_by_day local" and "descending_by_day remote"
  shows "\<exists>merged. merged_history remote d = Inr merged \<and> descending_by_day merged"
  using merged_history_spec [OF assms(1)] merge_spec_descending [OF assms(2,3)] by simp

theorem merge_keeps_descending_by_day_witness:
  "descending_by_day (map on_day [100, 99, 98]) \<and>
   descending_by_day (map on_day [102, 101, 100, 99]) \<and>
   (\<exists>merged. merged_history (map on_day [102, 101, 100, 99]) (disk_with (map on_day [100, 99, 98]))
       = Inr merged \<and> descending_by_day merged)"
proof -
  have h: "loadLocalHEXJSON (disk_with (map on_day [100, 99, 98])) = Inr (map on_day [100, 99, 98])"
    by (simp add: loadLocalHEXJSON_def disk_with_def)
  have l: "descending_by_day (map on_day [100, 99, 98])"
    by (simp add: descending_by_day_def on_day_def)
  have r: "descending_by_day (map on_day [102, 101, 100, 99])"
    by (simp add: descending_by_day_def on_day_def)
  show ?thesis
    using l r merge_keeps_descending_by_day [OF h l r] by simp
qed

lemma newer_prefix_caught_up:
  assumes "\<forall>e\<in>set remote. CurrentDay e \<le> m"
  shows "newer_prefix m remote = []"
  using assms by (cases remote) (simp_all add: newer_prefix_def)

lemma newer_prefix_after_merge:
  assumes "merge_spec local remote \<noteq> []"
  shows "newer_prefix (CurrentDay (hd (merge_spec local remote))) remote = []"
proof (cases "local = []")
  case True
  with assms have "remote \<noteq> []" by (simp add: merge_spec_def)
  with True show ?thesis
    by (cases remote) (simp_all add: merge_spec_def newer_prefix_def)
next
  case False
  show ?thesis
  proof (cases "newer_prefix (CurrentDay (hd local)) remote = []")
    case True
    with False show ?thesis by (simp add: merge_spec_def)
  next
    case nonempty: False
    then have "remote \<noteq> []" by (auto simp: newer_prefix_def)
    then obtain r rs where r: "remote = r # rs" by (cases remote) auto
    with nonempty have "hd (newer_prefix (CurrentDay (hd local)) remote) = r"
      by (simp add: newer_prefix_def split: if_splits)
    with False nonempty r show ?thesis
      by (simp add: merge_spec_def newer_prefix_def)
  qed
qed

lemma snd_update_load:
  assumes "loadLocalHEXJSON d = Inr local"
  shows "loadLocalHEXJSON (snd (updateLocalHEXJSON (Inr remote) WriteOk d)) =
           Inr (merge_spec local remote)"
  using merged_history_spec [OF assms] by (simp add: merged_history_def)

text \<open>
  C3. The merge is idempotent. With a non-empty \<open>local\<close> whose first day is at least
  every day of \<open>remote\<close>, a run of \<open>updateLocalHEXJSON\<close> returns no error and leaves the
  disk exactly as it was, so the result is \<open>local\<close>. After a first merge of \<open>remote\<close>,
  merging the same \<open>remote\<close> again leaves the persisted history as the first merge
  left it; unless both sequences were empty, the second run does not even write.
\<close>

theorem merge_idempotent:
  assumes "loadLocalHEXJSON d = Inr local"
  shows "(local \<noteq> [] \<and> (\<forall>e\<in>set remote. CurrentDay e \<le> CurrentDay (hd local)) \<longrightarrow>
            updateLocalHEXJSON (Inr remote) io d = (None, d) \<and>
            merged_history remote d = Inr local) \<and>
         merged_history remote (snd (updateLocalHEXJSON (Inr remote) WriteOk d)) =
           merged_history remote d \<and>
         (local \<noteq> [] \<or> remote \<noteq> [] \<longrightarrow>
            updateLocalHEXJSON (Inr remote) io (snd (updateLocalHEXJSON (Inr remote) WriteOk d)) =
              (None, snd (updateLocalHEXJSON (Inr remote) WriteOk d)))"
proof -
  let ?d1 = "snd (updateLocalHEXJSON (Inr remote) WriteOk d)"
  let ?m = "merge_spec local remote"
  have load1: "loadLocalHEXJSON ?d1 = Inr ?m"
    using assms by (rule snd_update_load)
  have caught_up: "updateLocalHEXJSON (Inr remote) io d = (None, d) \<and>
                   merged_history remote d = Inr local"
    if "local \<noteq> []" and "\<forall>e\<in>set remote. CurrentDay e \<le> CurrentDay (hd local)"
    using that assms newer_prefix_caught_up [OF that(2)]
    by (simp add: update_nonempty merged_history_def)
  have again: "updateLocalHEXJSON (Inr remote) io' ?d1 = (None, ?d1)" if "?m \<noteq> []" for io'
    using that load1 newer_prefix_after_merge [OF that]
    by (simp add: update_nonempty)
  have nonempty: "?m \<noteq> []" if "local \<noteq> [] \<or> remote \<noteq> []"
    using that by (auto simp: merge_spec_def)
  have same: "merged_history remote ?d1 = merged_history remote d"
  proof (cases "?m = []")
    case True
    then have "local = []" and "remote = []"
      by (auto simp: merge_spec_def split: if_splits)
    with load1 assms show ?thesis
      by (simp add: merged_history_def update_empty load_after_save merge_spec_def)
  next
    case False
    from again [OF False, of WriteOk] load1 merged_history_spec [OF assms, of remote]
    show ?thesis by (simp add: merged_history_def)
  qed
  from caught_up same again nonempty show ?thesis by blast
qed

theorem merge_idempotent_witness:
  "loadLocalHEXJSON (disk_with (map on_day [102, 101])) = Inr (map on_day [102, 101]) \<and>
   updateLocalHEXJSON (Inr (map on_day [102, 101, 100])) WriteOk (disk_with (map on_day [102, 101])) =
     (None, disk_with (map on_day [102, 101])) \<and>
   merged_history (map on_day [102, 101, 100]) (disk_with (map on_day [102, 101])) =
     Inr (map on_day [102, 101]) \<and>
   loadLocalHEXJSON (disk_with (map on_day [100, 99])) = Inr (map on_day [100, 99]) \<and>
   merged_history (map on_day [102, 101, 100])
       (snd (updateLocalHEXJSON (Inr (map on_day [102, 101, 100])) WriteOk
               (disk_with (map on_day [100, 99])))) =
     Inr (map on_day [102, 101, 100, 99]) \<and>
   updateLocalHEXJSON (Inr (map on_day [102, 101, 100])) WriteOk
       (snd (updateLocalHEXJSON (Inr (map on_day [102, 101, 100])) WriteOk
               (disk_with (map on_day [100, 99])))) =
     (None, snd (updateLocalHEXJSON (Inr (map on_day [102, 101, 100])) WriteOk
                   (disk_with (map on_day [100, 99]))))"
proof -
  have h: "loadLocalHEXJSON (disk_with (map on_day [102, 101])) = Inr (map on_day [102, 101])"
    by (simp add: loadLocalHEXJSON_def disk_with_def)
  have k: "loadLocalHEXJSON (disk_with (map on_day [100, 99])) = Inr (map on_day [100, 99])"
    by (simp add: loadLocalHEXJSON_def disk_with_def)
  have m: "merged_history (map on_day [102, 101, 100]) (disk_with (map on_day [100, 99])) =
             Inr (map on_day [102, 101, 100, 99])"
    using merged_history_spec [OF k, of "map on_day [102, 101, 100]"]
    by (simp add: on_day_def merge_spec_def newer_prefix_def)
  show ?thesis
    using h k m merge_idempotent [OF h, of "map on_day [102, 101, 100]" WriteOk]
      merge_idempotent [OF k, of "map on_day [102, 101, 100]" WriteOk]
    by (simp add: on_day_def)
qed

text \<open>
  C4. The early exit drops newer entries of an unsorted feed. Let \<open>local\<close> be non-empty
  and day-descending, and let \<open>remote\<close> start with an entry whose day does not exceed
  \<open>local\<close>'s first day, followed somewhere by an entry \<open>e\<close> whose day strictly exceeds
  it. Then \<open>remote\<close> is not day-descending, the scan stops at once, the merged result
  is \<open>local\<close>, and \<open>e\<close> is not in it. The instance proved after it is such a pair.
\<close>

theorem early_exit_drops_newer_entry:
  assumes "loadLocalHEXJSON d = Inr local" and "local \<noteq> []" and "descending_by_day local"
    and "remote = older # rest" and "CurrentDay older \<le> CurrentDay (hd local)"
    and "e \<in> set rest" and "CurrentDay e > CurrentDay (hd local)"
  shows "\<not> descending_by_day remote \<and> merged_history remote d = Inr local \<and> e \<notin> set local"
proof -
  have "\<not> CurrentDay e < CurrentDay older"
    using assms(5,7) by simp
  then have "\<not> sorted_wrt (\<lambda>a b. CurrentDay a > CurrentDay b) (older # rest)"
    using assms(6) by auto
  then have unsorted: "\<not> descending_by_day remote"
    using assms(4) by (simp add: descending_by_day_strict)
  have "newer_prefix (CurrentDay (hd local)) remote = []"
    using assms(4,5) by (simp add: newer_prefix_def)
  then have result: "merged_history remote d = Inr local"
    using merged_history_spec [OF assms(1), of remote] assms(2) by (simp add: merge_spec_def)
  have absent: "e \<notin> set local"
    using descending_hd_max [OF assms(3), of e] assms(7) by auto
  from unsorted result absent show ?thesis by simp
qed

theorem early_exit_drops_newer_entry_witness:
  "descending_by_day (map on_day [100, 99]) \<and>
   on_day 102 \<in> set (map on_day [102, 101]) \<and>
   CurrentDay (on_day 102) > CurrentDay (hd (map on_day [100, 99])) \<and>
   \<not> descending_by_day (map on_day [99, 102, 101]) \<and>
   merged_history (map on_day [99, 102, 101]) (disk_with (map on_day [100, 99])) =
     Inr (map on_day [100, 99]) \<and>
   on_day 102 \<notin> set (map on_day [100, 99])"
proof -
  have h: "loadLocalHEXJSON (disk_with (map on_day [100, 99])) = Inr (map on_day [100, 99])"
    by (simp add: loadLocalHEXJSON_def disk_with_def)
  have l: "descending_by_day (map on_day [100, 99])"
    by (simp add: descending_by_day_def on_day_def)
  have r: "map on_day [99, 102, 101] = on_day 99 # map on_day [102, 101]"
    by simp
  have o: "CurrentDay (on_day 99) \<le> CurrentDay (hd (map on_day [100, 99]))"
    by (simp add: on_day_def)
  have e: "on_day 102 \<in> set (map on_day [102, 101])"
    by simp
  have n: "CurrentDay (on_day 102) > CurrentDay (hd (map on_day [100, 99]))"
    by (simp add: on_day_def)
  have "map on_day [100, 99] \<noteq> []" by simp
  from early_exit_drops_newer_entry [OF h this l r o e n] l e n
  show ?thesis by simp
qed

text \<open>
  C5, as the code has it. \<open>updateLocalHEXJSON\<close> calls \<open>saveLocalHEXJSON\<close> in exactly two
  situations: the loaded \<open>local\<close> sequence is empty (then \<open>remote\<close> is saved, whatever
  it holds), or the scan collected at least one newer entry. With a non-empty \<open>local\<close>
  and a merge result equal to \<open>local\<close>, it returns no error and leaves the disk as it
  was: the file is not written. A failed fetch leaves the disk as it was too.
\<close>

theorem save_only_for_bootstrap_or_new_entries:
  assumes "loadLocalHEXJSON d = Inr local"
  shows "(local \<noteq> [] \<and> merge_spec local remote = local \<longrightarrow>
            updateLocalHEXJSON (Inr remote) io d = (None, d)) \<and>
         (local \<noteq> [] \<and> merge_spec local remote \<noteq> local \<longrightarrow>
            updateLocalHEXJSON (Inr remote) io d =
              saveLocalHEXJSON io (merge_spec local remote) d) \<and>
         (local = [] \<longrightarrow>
            updateLocalHEXJSON (Inr remote) io d = saveLocalHEXJSON io remote d) \<and>
         updateLocalHEXJSON (Inl err) io d = (Some err, d)"
proof -
  have "updateLocalHEXJSON (Inl err) io d = (Some err, d)"
    using assms by (simp add: updateLocalHEXJSON_def)
  moreover have "local = [] \<longrightarrow>
      updateLocalHEXJSON (Inr remote) io d = saveLocalHEXJSON io remote d"
    using assms by (simp add: update_empty)
  moreover have "local \<noteq> [] \<and> merge_spec local remote = local \<longrightarrow>
      updateLocalHEXJSON (Inr remote) io d = (None, d)"
    using assms by (simp add: update_nonempty merge_spec_def)
  moreover have "local \<noteq> [] \<and> merge_spec local remote \<noteq> local \<longrightarrow>
      updateLocalHEXJSON (Inr remote) io d = saveLocalHEXJSON io (merge_spec local remote) d"
    using assms by (simp add: update_nonempty merge_spec_def)
  ultimately show ?thesis by simp
qed

theorem save_only_for_bootstrap_or_new_entries_witness:
  "loadLocalHEXJSON (disk_with (map on_day [100, 99])) = Inr (map on_day [100, 99]) \<and>
   merge_spec (map on_day [100, 99]) (map on_day [100, 99]) = map on_day [100, 99] \<and>
   updateLocalHEXJSON (Inr (map on_day [100, 99])) WriteOk (disk_with (map on_day [100, 99])) =
     (None, disk_with (map on_day [100, 99])) \<and>
   updateLocalHEXJSON (Inl HttpFailed) WriteOk (disk_with (map on_day [100, 99])) =
     (Some HttpFailed, disk_with (map on_day [100, 99]))"
proof -
  have h: "loadLocalHEXJSON (disk_with (map on_day [100, 99])) = Inr (map on_day [100, 99])"
    by (simp add: loadLocalHEXJSON_def disk_with_def)
  have m: "merge_spec (map on_day [100, 99]) (map on_day [100, 99]) = map on_day [100, 99]"
    by (simp add: merge_spec_def newer_prefix_def on_day_def)
  show ?thesis
    using h m save_only_for_bootstrap_or_new_entries
                [OF h, of "map on_day [100, 99]" WriteOk HttpFailed]
    by simp
qed

text \<open>
  C5 as stated fails for the bootstrap: with no history on disk and an empty feed, the
  merge result equals the loaded (empty) sequence and the file is written all the same.
\<close>

theorem bootstrap_writes_empty_feed:
  "loadLocalHEXJSON no_history = Inr [] \<and>
   merged_history [] no_history = Inr [] \<and>
   hexjson_file no_history = Absent \<and>
   hexjson_file (snd (updateLocalHEXJSON (Inr []) WriteOk no_history)) = Content [] \<and>
   hexjson_writes (snd (updateLocalHEXJSON (Inr []) WriteOk no_history)) =
     Suc (hexjson_writes no_history)"
  by (simp add: merged_history_def updateLocalHEXJSON_def loadLocalHEXJSON_def
      saveLocalHEXJSON_def no_history_def)

section \<open>Properties of the configuration\<close>

lemma Get_SetLiveDataFrequency:
  "GetLiveDataFrequency (SetLiveDataFrequency n a) = n"
  by (simp add: GetLiveDataFrequency_def SetLiveDataFrequency_def Let_def)

lemma Get_Subscribe:
  "GetLiveDataFrequency (snd (Subscribe a)) = GetLiveDataFrequency a"
  by (simp add: GetLiveDataFrequency_def Subscribe_def Let_def)

lemma Get_logged_update:
  "GetLiveDataFrequency (a\<lparr>logged := x\<rparr>) = GetLiveDataFrequency a"
  by (simp add: GetLiveDataFrequency_def)

lemma loadConfig_positive:
  assumes "loadConfig f = (c, None)"
  shows "0 < LiveDataFrequency c"
  using assms
  by (auto simp: loadConfig_def defaultLiveDataFrequency_def split: file_state.splits if_splits)

lemma main_loadConfig_positive:
  "0 < GetLiveDataFrequency (main_loadConfig f a)"
proof (cases "loadConfig f")
  case (Pair c err)
  show ?thesis
  proof (cases err)
    case None
    with Pair loadConfig_positive [of f c] show ?thesis
      by (simp add: main_loadConfig_def Get_SetLiveDataFrequency)
  next
    case (Some e)
    with Pair show ?thesis
      by (simp add: main_loadConfig_def Get_SetLiveDataFrequency defaultLiveDataFrequency_def)
  qed
qed

lemma saveFrequencyButton_positive:
  assumes "0 < GetLiveDataFrequency a"
  shows "0 < GetLiveDataFrequency (snd (snd (saveFrequencyButton parsed io f a)))"
  using assms
  by (auto simp: saveFrequencyButton_def Get_SetLiveDataFrequency Get_logged_update
      split: sum.splits prod.splits option.splits)

lemma config_step_positive:
  assumes "0 < GetLiveDataFrequency a"
  shows "0 < GetLiveDataFrequency (config_step a op)"
  using assms
  by (cases op) (simp_all add: main_loadConfig_positive saveFrequencyButton_positive Get_Subscribe)

lemma config_run_positive:
  assumes "0 < GetLiveDataFrequency a"
  shows "0 < GetLiveDataFrequency (config_run ops a)"
  using assms unfolding config_run_def
  by (induction ops arbitrary: a) (simp_all add: config_step_positive)

text \<open>
  C9. The stored polling interval is always strictly positive. It is 15 at
  construction; every operation the program performs on the \<open>configManager\<close> keeps it
  positive (the start-up sequence stores a value of \<open>loadConfig\<close> or the default,
  whatever the config file holds; the settings handler reaches \<open>SetLiveDataFrequency\<close>
  only with a positive integer; \<open>Subscribe\<close> leaves it alone); so after any number of
  these operations \<open>GetLiveDataFrequency\<close> returns an integer greater than zero.
\<close>

theorem interval_positive_in_reachable_states:
  assumes "configManager a = configManager_init"
  shows "0 < GetLiveDataFrequency a \<and>
         0 < GetLiveDataFrequency (config_run ops a) \<and>
         0 < GetLiveDataFrequency (config_step (config_run ops a) op) \<and>
         0 < GetLiveDataFrequency (main_loadConfig f b) \<and>
         (0 < GetLiveDataFrequency b \<longrightarrow> 0 < GetLiveDataFrequency (config_step b op)) \<and>
         GetLiveDataFrequency (SetLiveDataFrequency n (config_run ops a)) = n"
proof -
  have "0 < GetLiveDataFrequency a"
    using assms
    by (simp add: GetLiveDataFrequency_def configManager_init_def defaultLiveDataFrequency_def)
  then show ?thesis
    by (simp add: config_run_positive config_step_positive main_loadConfig_positive
        Get_SetLiveDataFrequency)
qed

theorem interval_positive_in_reachable_states_witness:
  "configManager app0 = configManager_init \<and>
   GetLiveDataFrequency app0 = 15 \<and>
   GetLiveDataFrequency
     (config_run [MainLoadConfig (Content \<lparr>LiveDataFrequency = - 3\<rparr>), NewSubscriber,
                  SaveFrequency (Inr 0) WriteOk Absent, SaveFrequency (Inr 30) CreateFails Absent,
                  SaveFrequency (Inr 7) WriteOk Absent] app0) = 7 \<and>
   0 < GetLiveDataFrequency
     (config_run [MainLoadConfig (Content \<lparr>LiveDataFrequency = - 3\<rparr>), NewSubscriber,
                  SaveFrequency (Inr 0) WriteOk Absent, SaveFrequency (Inr 30) CreateFails Absent,
                  SaveFrequency (Inr 7) WriteOk Absent] app0) \<and>
   0 < GetLiveDataFrequency (config_step app0 (SaveFrequency (Inr (- 5)) WriteOk Absent)) \<and>
   0 < GetLiveDataFrequency (main_loadConfig Malformed app0)"
proof -
  have h: "configManager app0 = configManager_init"
    by (simp add: app0_def)
  have v: "GetLiveDataFrequency
     (config_run [MainLoadConfig (Content \<lparr>LiveDataFrequency = - 3\<rparr>), NewSubscriber,
                  SaveFrequency (Inr 0) WriteOk Absent, SaveFrequency (Inr 30) CreateFails Absent,
                  SaveFrequency (Inr 7) WriteOk Absent] (app0 :: nat app)) = 7"
    by (simp add: config_run_def main_loadConfig_def loadConfig_def saveFrequencyButton_def
        saveConfig_def Get_SetLiveDataFrequency Get_Subscribe Get_logged_update)
  have g: "GetLiveDataFrequency app0 = 15"
    by (simp add: app0_def GetLiveDataFrequency_def configManager_init_def
        defaultLiveDataFrequency_def)
  show ?thesis
    using h v g interval_positive_in_reachable_states [OF h,
      of "[MainLoadConfig (Content \<lparr>LiveDataFrequency = - 3\<rparr>), NewSubscriber,
           SaveFrequency (Inr 0) WriteOk Absent, SaveFrequency (Inr 30) CreateFails Absent,
           SaveFrequency (Inr 7) WriteOk Absent]"
         "SaveFrequency (Inr (- 5)) WriteOk Absent" Malformed app0 7]
      interval_positive_in_reachable_states [OF h, of "[]"
         "SaveFrequency (Inr (- 5)) WriteOk Absent" Malformed app0 7]
    by (simp add: config_run_def)
qed

text \<open>
  C8. \<open>loadConfig\<close> substitutes the default of 15 minutes in exactly two cases, both
  without an error: the file is absent, or it decodes to a non-positive interval. A
  positive decoded interval is returned as it is, and a file that cannot be opened or
  decoded gives an error beside the zero \<open>Config\<close>.
\<close>

theorem loadConfig_default_cases:
  fixes c :: Config
  shows "loadConfig Absent = (\<lparr>LiveDataFrequency = 15\<rparr>, None) \<and>
         (LiveDataFrequency c \<le> 0 \<longrightarrow>
            loadConfig (Content c) = (\<lparr>LiveDataFrequency = 15\<rparr>, None)) \<and>
         (0 < LiveDataFrequency c \<longrightarrow> loadConfig (Content c) = (c, None)) \<and>
         loadConfig Unreadable = (\<lparr>LiveDataFrequency = 0\<rparr>, Some OpenFailed) \<and>
         loadConfig Malformed = (\<lparr>LiveDataFrequency = 0\<rparr>, Some DecodeFailed)"
  by (simp add: loadConfig_def defaultLiveDataFrequency_def)

theorem loadConfig_default_cases_witness:
  "loadConfig Absent = (\<lparr>LiveDataFrequency = 15\<rparr>, None) \<and>
   loadConfig (Content \<lparr>LiveDataFrequency = 0\<rparr>) = (\<lparr>LiveDataFrequency = 15\<rparr>, None) \<and>
   loadConfig (Content \<lparr>LiveDataFrequency = - 4\<rparr>) = (\<lparr>LiveDataFrequency = 15\<rparr>, None) \<and>
   loadConfig (Content \<lparr>LiveDataFrequency = 30\<rparr>) = (\<lparr>LiveDataFrequency = 30\<rparr>, None)"
  using loadConfig_default_cases [of "\<lparr>LiveDataFrequency = 0\<rparr>"]
    loadConfig_default_cases [of "\<lparr>LiveDataFrequency = - 4\<rparr>"]
    loadConfig_default_cases [of "\<lparr>LiveDataFrequency = 30\<rparr>"]
  by simp

text \<open>
  C10. For a config file that exists but does not decode, \<open>loadConfig\<close> returns the
  error beside the zero \<open>Config\<close>, not the default. The start-up sequence of \<open>main\<close>
  then logs the error and stores the default of 15 minutes itself.
\<close>

theorem malformed_config_defaulted_by_main:
  "loadConfig Malformed = (\<lparr>LiveDataFrequency = 0\<rparr>, Some DecodeFailed) \<and>
   fst (loadConfig Malformed) \<noteq> \<lparr>LiveDataFrequency = defaultLiveDataFrequency\<rparr> \<and>
   main_loadConfig Malformed a =
     SetLiveDataFrequency defaultLiveDataFrequency
       (a\<lparr>logged := logged a @ [LogErrorLoadingConfig DecodeFailed]\<rparr>) \<and>
   GetLiveDataFrequency (main_loadConfig Malformed a) = 15 \<and>
   take (length (logged a) + 2) (logged (main_loadConfig Malformed a)) =
     logged a @ [LogErrorLoadingConfig DecodeFailed, LogSetFrequency 15]"
proof -
  have m: "main_loadConfig Malformed a =
     SetLiveDataFrequency defaultLiveDataFrequency
       (a\<lparr>logged := logged a @ [LogErrorLoadingConfig DecodeFailed]\<rparr>)"
    by (simp add: loadConfig_def main_loadConfig_def)
  have g: "GetLiveDataFrequency (main_loadConfig Malformed a) = 15"
    unfolding m by (simp add: Get_SetLiveDataFrequency defaultLiveDataFrequency_def)
  have t: "take (length (logged a) + 2) (logged (main_loadConfig Malformed a)) =
     logged a @ [LogErrorLoadingConfig DecodeFailed, LogSetFrequency 15]"
    unfolding m by (simp add: SetLiveDataFrequency_def Let_def defaultLiveDataFrequency_def)
  have l: "loadConfig Malformed = (\<lparr>LiveDataFrequency = 0\<rparr>, Some DecodeFailed)"
    by (simp add: loadConfig_def)
  from m g t l show ?thesis
    by (simp add: defaultLiveDataFrequency_def)
qed

section \<open>Properties of the polling loops\<close>

lemma minutes_in_range:
  assumes "0 < freq" and "freq \<le> 153722867"
  shows "minutes freq = freq * 60000000000" and "0 < minutes freq"
proof -
  have "0 \<le> freq * 60000000000 + 2 ^ 63" and "freq * 60000000000 + 2 ^ 63 < 2 ^ 64"
    using assms by simp_all
  then have "(freq * 60000000000 + 2 ^ 63) mod 2 ^ 64 = freq * 60000000000 + 2 ^ 63"
    by (rule mod_pos_pos_trivial)
  then show m: "minutes freq = freq * 60000000000"
    by (simp add: minutes_def wrap64_def)
  show "0 < minutes freq"
    unfolding m using assms(1) by simp
qed

lemma ticker_Reset_positive:
  assumes "0 < d"
  shows "ticker_Reset d l = l\<lparr>loop_ticker := Ticking d\<rparr>"
  using assms by (simp add: ticker_Reset_def)

lemma pollerStep_failed_fetch:
  assumes "loop_status l = Running" and "0 < minutes (GetLiveDataFrequency a)"
  shows "pollerStep (PollTick (Inl err)) (l, a) =
           Some (l\<lparr>loop_frequency := GetLiveDataFrequency a,
                   loop_ticker := Ticking (minutes (GetLiveDataFrequency a))\<rparr>,
                 a\<lparr>liveFetches := Suc (liveFetches a),
                   logged := logged a @ [LogErrorFetching err]\<rparr>)"
  using assms
  by (simp add: pollerStep_def Let_def GetLiveDataFrequency_def ticker_Reset_def)

lemma pollerStep_successful_fetch:
  assumes "loop_status l = Running" and "0 < minutes (GetLiveDataFrequency a)"
  shows "pollerStep (PollTick (Inr data)) (l, a) =
           Some (l\<lparr>loop_frequency := GetLiveDataFrequency a,
                   loop_ticker := Ticking (minutes (GetLiveDataFrequency a))\<rparr>,
                 a\<lparr>liveFetches := Suc (liveFetches a),
                   latestLiveData := data,
                   logged := logged a @ [LogUpdatedLiveData (TsharePricePulsechain data)]\<rparr>)"
  using assms
  by (simp add: pollerStep_def Let_def GetLiveDataFrequency_def ticker_Reset_def)

text \<open>
  C6, as the code has it. In a cycle of the fetching loop in which \<open>fetchLiveData\<close>
  fails, with a configured interval of 1 to 153722867 minutes (those whose duration in
  nanoseconds is a positive \<open>int64\<close>), the loop logs the error, keeps running, leaves
  the cached snapshot and the \<open>configManager\<close> as they were, and re-arms the ticker with
  the interval it reads from the \<open>configManager\<close> after the failure, exactly as it does
  after a successful fetch. When the configured interval is still the one the ticker
  was armed with, the loop's variables are unchanged.
\<close>

theorem failed_fetch_rearms_with_configured_interval:
  assumes "loop_status l = Running"
    and "0 < GetLiveDataFrequency a" and "GetLiveDataFrequency a \<le> 153722867"
  shows "\<exists>l' a'. pollerStep (PollTick (Inl err)) (l, a) = Some (l', a') \<and>
           logged a' = logged a @ [LogErrorFetching err] \<and>
           loop_status l' = Running \<and>
           latestLiveData a' = latestLiveData a \<and>
           configManager a' = configManager a \<and>
           loop_frequency l' = GetLiveDataFrequency a \<and>
           loop_ticker l' = Ticking (GetLiveDataFrequency a * 60000000000) \<and>
           map_option fst (pollerStep (PollTick (Inr data)) (l, a)) = Some l' \<and>
           (loop_frequency l = GetLiveDataFrequency a \<and>
            loop_ticker l = Ticking (loop_frequency l * 60000000000) \<longrightarrow> l' = l)"
proof -
  have pos: "0 < minutes (GetLiveDataFrequency a)"
    using assms(2,3) by (rule minutes_in_range(2))
  have m: "minutes (GetLiveDataFrequency a) = GetLiveDataFrequency a * 60000000000"
    using assms(2,3) by (rule minutes_in_range(1))
  show ?thesis
    unfolding pollerStep_failed_fetch [OF assms(1) pos] pollerStep_successful_fetch [OF assms(1) pos]
    using assms(1) by (simp add: m)
qed

lemma poller0_eval:
  "poller0 =
     (\<lparr>loop_frequency = 15, loop_ticker = Ticking 900000000000, loop_changeCh = 0,
       loop_status = Running\<rparr>,
      app0\<lparr>configManager := \<lparr>config = \<lparr>LiveDataFrequency = 15\<rparr>, changeChans = [False]\<rparr>,
           logged := [LogStartingFetchTicker 15, LogNewSubscriber 1]\<rparr>)"
  by (simp add: poller0_def startPoller_def app0_def GetLiveDataFrequency_def
      configManager_init_def defaultLiveDataFrequency_def minutes_def wrap64_def Subscribe_def
      Let_def)

theorem failed_fetch_rearms_with_configured_interval_witness:
  "loop_status (fst poller0) = Running \<and>
   GetLiveDataFrequency (snd poller0) = 15 \<and>
   (\<exists>l' a'. pollerStep (PollTick (Inl HttpFailed)) (fst poller0, snd poller0) = Some (l', a') \<and>
      logged a' = logged (snd poller0) @ [LogErrorFetching HttpFailed] \<and>
      loop_status l' = Running \<and>
      latestLiveData a' = latestLiveData (snd poller0) \<and>
      configManager a' = configManager (snd poller0) \<and>
      loop_frequency l' = 15 \<and>
      loop_ticker l' = Ticking 900000000000 \<and>
      l' = fst poller0)"
proof -
  have s: "loop_status (fst poller0) = Running"
    by (simp add: poller0_eval)
  have g: "GetLiveDataFrequency (snd poller0) = 15"
    by (simp add: poller0_eval GetLiveDataFrequency_def)
  have f: "loop_frequency (fst poller0) = 15" "loop_ticker (fst poller0) = Ticking 900000000000"
    by (simp_all add: poller0_eval)
  have p: "0 < GetLiveDataFrequency (snd poller0)" "GetLiveDataFrequency (snd poller0) \<le> 153722867"
    by (simp_all add: g)
  from failed_fetch_rearms_with_configured_interval [OF s p, of HttpFailed "latestLiveData app0"]
  show ?thesis
    unfolding g using s f by auto
qed

text \<open>
  C6 as stated fails when the interval was reconfigured since the ticker was armed: a
  loop armed with 15 minutes, whose fetch fails after \<open>SetLiveDataFrequency 5\<close>, re-arms
  with 5 minutes and not with the previous interval.
\<close>

theorem failed_fetch_rearms_with_changed_interval:
  "loop_ticker (fst poller0) = Ticking 900000000000 \<and>
   map_option (loop_ticker \<circ> fst)
     (pollerStep (PollTick (Inl HttpFailed)) (fst poller0, SetLiveDataFrequency 5 (snd poller0))) =
     Some (Ticking 300000000000) \<and>
   map_option (loop_frequency \<circ> fst)
     (pollerStep (PollTick (Inl HttpFailed)) (fst poller0, SetLiveDataFrequency 5 (snd poller0))) =
     Some 5"
  by (simp add: poller0_eval pollerStep_def SetLiveDataFrequency_def GetLiveDataFrequency_def
      Let_def ticker_Reset_def minutes_def wrap64_def)

text \<open>
  Beyond 153722867 minutes the duration wraps around; with 200000000 minutes it is
  negative and \<open>ticker.Reset\<close> panics.
\<close>

lemma huge_interval_panics:
  "map_option (loop_status \<circ> fst)
     (pollerStep (PollTick (Inl HttpFailed))
        (fst poller0, SetLiveDataFrequency 200000000 (snd poller0))) = Some Panicked"
  by (simp add: poller0_eval pollerStep_def SetLiveDataFrequency_def GetLiveDataFrequency_def
      Let_def ticker_Reset_def minutes_def wrap64_def)
















end
